theory Spec2Isabelle
  imports Complex_Main "HOL-Library.Log_Nat"
begin

section \<open>Python values\<close>

text \<open>
  The handlers work on decoded JSON, which Python represents by dynamically typed
  values. A dictionary is an association list read with \<open>map_of\<close>; numbers are
  rationals.
\<close>

datatype pyval =
    PNone
  | PBool bool
  | PNum rat
  | PStr string
  | PList "pyval list"
  | PDict "(string \<times> pyval) list"

type_synonym pydict = "(string \<times> pyval) list"

text \<open>
  The exceptions of the model; \<open>External\<close> is any exception raised inside a method of
  the library.
\<close>

datatype exn =
    AttributeError
  | KeyError
  | TypeError
  | External string

text \<open>Python truth value testing: \<open>None\<close>, \<open>False\<close>, zero and empty containers are false.\<close>

fun truthy :: "pyval \<Rightarrow> bool" where
  "truthy PNone = False"
| "truthy (PBool b) = b"
| "truthy (PNum n) = (n \<noteq> 0)"
| "truthy (PStr s) = (s \<noteq> [])"
| "truthy (PList xs) = (xs \<noteq> [])"
| "truthy (PDict kvs) = (kvs \<noteq> [])"

text \<open>\<open>a or b\<close>: the first operand when it is true, else the second.\<close>

definition py_or :: "pyval \<Rightarrow> pyval \<Rightarrow> pyval" where
  "py_or a b = (if truthy a then a else b)"

text \<open>\<open>d.get(k, default)\<close>; on anything but a dictionary the attribute is missing.\<close>

fun py_get :: "pyval \<Rightarrow> string \<Rightarrow> pyval \<Rightarrow> exn + pyval" where
  "py_get (PDict kvs) k dflt = Inr (case map_of kvs k of None \<Rightarrow> dflt | Some v \<Rightarrow> v)"
| "py_get _ k dflt = Inl AttributeError"

text \<open>\<open>choices[0]\<close>, evaluated only when \<open>choices\<close> is true (so never on an empty container).\<close>

fun py_first :: "pyval \<Rightarrow> exn + pyval" where
  "py_first (PList (x # xs)) = Inr x"
| "py_first (PStr (c # cs)) = Inr (PStr [c])"
| "py_first (PDict kvs) = Inl KeyError"
| "py_first _ = Inl TypeError"

section \<open>Token arrival extractor\<close>

text \<open>
  State of \<open>ChatCompletionsWithReasoningResponseHandler\<close> that \<open>add_streaming_line\<close>
  reads and writes. \<open>streaming_response_id\<close> and \<open>streaming_usage\<close> hold \<open>PNone\<close> for
  Python's \<open>None\<close>.
\<close>

record handler =
  streaming_texts :: "pyval list"
  streaming_response_id :: pyval
  streaming_usage :: pyval

text \<open>
  \<open>extract_line_data\<close> and \<open>extract_choices_and_usage\<close> are inherited from the base class
  of the guidellm library, so they are parameters of the model. The first returns
  \<open>None\<close> or a dictionary (its declared type), the second a pair of values; either may
  raise.
\<close>

type_synonym line_decoder = "string \<Rightarrow> exn + pydict option"
type_synonym choices_usage = "pydict \<Rightarrow> exn + (pyval \<times> pyval)"

text \<open>
  The part of \<open>add_streaming_line\<close> under \<open>if choices:\<close>. It yields the new text list and
  the flag \<open>updated\<close>, or the exception of a \<open>.get\<close> on a value that is no dictionary.
\<close>

definition detect_token :: "pyval \<Rightarrow> pyval list \<Rightarrow> exn + (pyval list \<times> bool)" where
  "detect_token choice texts =
     (case py_get choice ''delta'' (PDict []) of
        Inl e \<Rightarrow> Inl e
      | Inr delta \<Rightarrow>
          (case py_get delta ''content'' PNone of
             Inl e \<Rightarrow> Inl e
           | Inr content \<Rightarrow>
               (case py_get delta ''reasoning_content'' PNone of
                  Inl e \<Rightarrow> Inl e
                | Inr reasoning_content \<Rightarrow>
                    if content \<noteq> PNone \<or> reasoning_content \<noteq> PNone
                    then Inr (texts @ [py_or (py_or content reasoning_content) (PStr [])], True)
                    else Inr (texts, False))))"

text \<open>Lines 90 and 91: the identifier is recorded only while none is stored.\<close>

definition record_id :: "pydict \<Rightarrow> handler \<Rightarrow> handler" where
  "record_id data self =
     (case map_of data ''id'' of
        None \<Rightarrow> self
      | Some v \<Rightarrow>
          if streaming_response_id self = PNone then self\<lparr>streaming_response_id := v\<rparr>
          else self)"

text \<open>Line 95: \<open>choices[0] if choices else {}\<close>.\<close>

definition first_choice :: "pyval \<Rightarrow> exn + pyval" where
  "first_choice choices = (if truthy choices then py_first choices else Inr (PDict []))"

text \<open>Lines 112 and 113: a usage value that is true replaces the stored one.\<close>

definition store_usage :: "pyval \<Rightarrow> handler \<Rightarrow> handler" where
  "store_usage usage self = (if truthy usage then self\<lparr>streaming_usage := usage\<rparr> else self)"

text \<open>
  The body of \<open>add_streaming_line\<close> below its first statement, on a decoded dictionary
  that is not empty. The result pairs the outcome with the handler as the call leaves
  it: an exception keeps the assignments made before it was raised.
\<close>

definition process_data :: "choices_usage \<Rightarrow> handler \<Rightarrow> pydict \<Rightarrow> (exn + int option) \<times> handler" where
  "process_data extract_choices_and_usage self data =
     (let self1 = record_id data self in
      case extract_choices_and_usage data of
        Inl e \<Rightarrow> (Inl e, self1)
      | Inr (choices, usage) \<Rightarrow>
          (case first_choice choices of
             Inl e \<Rightarrow> (Inl e, self1)
           | Inr choice \<Rightarrow>
               (case (if truthy choices then detect_token choice (streaming_texts self1)
                      else Inr (streaming_texts self1, False)) of
                  Inl e \<Rightarrow> (Inl e, self1)
                | Inr (texts, updated) \<Rightarrow>
                    (Inr (Some (if updated then 1 else 0)),
                     store_usage usage (self1\<lparr>streaming_texts := texts\<rparr>)))))"

text \<open>
  \<open>add_streaming_line\<close>. The return value is \<open>None\<close> when the decoder returns \<open>None\<close>,
  \<open>Some 0\<close> when it returns an empty dictionary, and otherwise \<open>Some 0\<close> or \<open>Some 1\<close>.
\<close>

definition add_streaming_line ::
  "line_decoder \<Rightarrow> choices_usage \<Rightarrow> handler \<Rightarrow> string \<Rightarrow> (exn + int option) \<times> handler" where
  "add_streaming_line extract_line_data extract_choices_and_usage self line =
     (case extract_line_data line of
        Inl e \<Rightarrow> (Inl e, self)
      | Inr None \<Rightarrow> (Inr None, self)
      | Inr (Some data) \<Rightarrow>
          (if data = [] then (Inr (Some 0), self)
           else process_data extract_choices_and_usage self data))"

text \<open>
  The owner of a handler feeds it the lines of one stream in arrival order. \<open>feed\<close>
  runs \<open>add_streaming_line\<close> over a list of lines and keeps the handler of each call,
  whatever the call returned or raised.
\<close>

fun feed :: "line_decoder \<Rightarrow> choices_usage \<Rightarrow> handler \<Rightarrow> string list \<Rightarrow> handler" where
  "feed extract_line_data extract_choices_and_usage self [] = self"
| "feed extract_line_data extract_choices_and_usage self (line # rest) =
     feed extract_line_data extract_choices_and_usage
       (snd (add_streaming_line extract_line_data extract_choices_and_usage self line)) rest"

text \<open>
  A choice that \<open>add_streaming_line\<close> reads without raising: a dictionary whose
  \<open>delta\<close>, when it has one, is a dictionary. A value for \<open>choices\<close> is read without
  raising when it is false or a list that starts with such a choice.
\<close>

definition readable_choice :: "pyval \<Rightarrow> bool" where
  "readable_choice choice =
     (case py_get choice ''delta'' (PDict []) of Inr (PDict d) \<Rightarrow> True | _ \<Rightarrow> False)"

definition readable_choices :: "pyval \<Rightarrow> bool" where
  "readable_choices choices =
     (case choices of PList (c # cs) \<Rightarrow> readable_choice c | _ \<Rightarrow> \<not> truthy choices)"

subsection \<open>An instance of the inherited methods\<close>

text \<open>
  For evaluating the handler on concrete lines: a decoder that knows the end marker and
  a table of payload lines and takes every other line for noise, and the reading of
  \<open>choices\<close> and \<open>usage\<close> from the payload with an empty list and an empty dictionary as
  defaults.
\<close>

definition table_decoder :: "(string \<times> pydict) list \<Rightarrow> line_decoder" where
  "table_decoder tbl line =
     (if line = ''data: [DONE]'' then Inr None
      else case map_of tbl line of None \<Rightarrow> Inr (Some []) | Some d \<Rightarrow> Inr (Some d))"

definition get_choices_and_usage :: choices_usage where
  "get_choices_and_usage response =
     Inr (case map_of response ''choices'' of None \<Rightarrow> PList [] | Some v \<Rightarrow> v,
          case map_of response ''usage'' of None \<Rightarrow> PDict [] | Some v \<Rightarrow> v)"

definition fresh_handler :: handler where
  "fresh_handler = \<lparr>streaming_texts = [], streaming_response_id = PNone, streaming_usage = PNone\<rparr>"

text \<open>The payload \<open>{"choices": [{"delta": delta}]}\<close>.\<close>

definition chunk :: "pydict \<Rightarrow> pydict" where
  "chunk delta = [(''choices'', PList [PDict [(''delta'', PDict delta)]])]"

section \<open>Double precision\<close>

text \<open>
  Python's \<open>float\<close> is the IEEE double. A finite double is the rational it denotes, and
  an operation on doubles is the exact operation followed by \<open>double_round\<close>: rounding to
  the nearest double, ties to the even significand, with 53 bits of precision and
  gradual underflow. Infinities and NaN are left out; a result beyond the largest
  double stays a rational of that size.
\<close>

definition pow2 :: "int \<Rightarrow> rat" where
  "pow2 k = (if 0 \<le> k then 2 ^ nat k else 1 / 2 ^ nat (- k))"

definition round_half_even :: "rat \<Rightarrow> int" where
  "round_half_even y =
     (let n = \<lfloor>y\<rfloor>; r = y - of_int n
      in if r < 1 / 2 then n else if 1 / 2 < r then n + 1 else if even n then n else n + 1)"

text \<open>For \<open>0 < x\<close>, the exponent \<open>e\<close> with \<open>2 ^ e \<le> x < 2 ^ (e + 1)\<close>.\<close>

definition exponent :: "rat \<Rightarrow> int" where
  "exponent x = (if 1 \<le> x then bitlen \<lfloor>x\<rfloor> - 1 else - bitlen (\<lceil>1 / x\<rceil> - 1))"

text \<open>The distance of neighbouring doubles around \<open>x\<close>; below \<open>2 ^ -1022\<close> it stays \<open>2 ^ -1074\<close>.\<close>

definition ulp :: "rat \<Rightarrow> rat" where
  "ulp x = pow2 (max (exponent x) (- 1022) - 52)"

definition round_positive :: "rat \<Rightarrow> rat" where
  "round_positive x = of_int (round_half_even (x / ulp x)) * ulp x"

definition double_round :: "rat \<Rightarrow> rat" where
  "double_round x =
     (if x = 0 then 0 else if 0 < x then round_positive x else - round_positive (- x))"

definition double_sub :: "rat \<Rightarrow> rat \<Rightarrow> rat" where
  "double_sub x y = double_round (x - y)"

definition double_mul :: "rat \<Rightarrow> rat \<Rightarrow> rat" where
  "double_mul x y = double_round (x * y)"

section \<open>Remote progress sink\<close>

text \<open>
  \<open>ServerBenchmarkerProgress\<close>. The aiohttp session is reduced to its headers and to
  whether it has been closed. Times and progress values are the rationals that the
  source's numbers denote; its float arithmetic is \<open>double_sub\<close> and \<open>double_mul\<close>, and
  its comparisons are exact. \<open>init\<close> is \<open>__init__\<close> and \<open>update_progress\<close> is
  \<open>_update_progress\<close>.
\<close>

record client_session =
  headers :: "(string \<times> string) list"
  session_closed :: bool

record sink =
  progress_url :: string
  progress_auth :: "string option"
  session :: "client_session option"
  last_update_ts :: rat
  last_progress :: rat

text \<open>
  What the network does with a PATCH of a progress value to a URL: a response with a
  status code, or a failure of the transport.
\<close>

datatype reply = Status nat | Failure string

type_synonym network = "string \<Rightarrow> rat \<Rightarrow> reply"

text \<open>
  What made a push fail; \<open>PushFailed c\<close> is the \<open>RuntimeError\<close> that \<open>_update_progress\<close>
  raises with the text of \<open>c\<close> in its message.
\<close>

datatype cause = ClientResponseError nat | ClientError string | SessionClosed

datatype failure = PushFailed cause | NoSession

text \<open>
  The effect of one handler call: the exception that left it (if any), the sink as the
  call leaves it, and the progress values of the requests it sent, in order.
\<close>

record effect =
  raised :: "failure option"
  sink_after :: sink
  requests :: "rat list"

definition returned :: "sink \<Rightarrow> effect" where
  "returned self = \<lparr>raised = None, sink_after = self, requests = []\<rparr>"

definition init :: "string \<Rightarrow> string option \<Rightarrow> sink" where
  "init url auth =
     \<lparr>progress_url = url, progress_auth = auth, session = None,
      last_update_ts = 0, last_progress = - 1\<rparr>"

definition on_initialize :: "sink \<Rightarrow> effect" where
  "on_initialize self =
     (case session self of
        None \<Rightarrow>
          returned (self\<lparr>session := Some
            \<lparr>headers = (case progress_auth self of
                          None \<Rightarrow> []
                        | Some a \<Rightarrow> [(''Authorization'', ''Bearer '' @ a)]),
             session_closed = False\<rparr>\<rparr>)
      | Some s \<Rightarrow> returned self)"

text \<open>\<open>resp.raise_for_status()\<close>: aiohttp raises for a status of 400 or more.\<close>

definition raise_for_status :: "nat \<Rightarrow> cause option" where
  "raise_for_status status = (if 400 \<le> status then Some (ClientResponseError status) else None)"

text \<open>
  The \<open>try\<close> block of \<open>_update_progress\<close>: \<open>None\<close> when the request was answered with a
  success status, else the exception caught. A closed session raises before anything
  is sent; the second component says whether a request went out.
\<close>

definition patch :: "network \<Rightarrow> client_session \<Rightarrow> string \<Rightarrow> rat \<Rightarrow> cause option \<times> bool" where
  "patch net s url progress =
     (if session_closed s then (Some SessionClosed, False)
      else case net url progress of
             Failure msg \<Rightarrow> (Some (ClientError msg), True)
           | Status code \<Rightarrow> (raise_for_status code, True))"

text \<open>\<open>_update_progress\<close>, with the reading \<open>now\<close> of \<open>time.time()\<close>.\<close>

definition should_update :: "rat \<Rightarrow> sink \<Rightarrow> rat \<Rightarrow> bool" where
  "should_update now self progress =
     (double_sub now (last_update_ts self) \<ge> 1
      \<or> progress \<ge> 100
      \<or> double_sub progress (last_progress self) \<ge> 2)"

definition update_progress :: "network \<Rightarrow> rat \<Rightarrow> sink \<Rightarrow> rat \<Rightarrow> effect" where
  "update_progress net now self progress =
     (case session self of
        None \<Rightarrow> returned self
      | Some s \<Rightarrow>
          if \<not> should_update now self progress then returned self
          else
            (case patch net s (progress_url self) progress of
               (None, went) \<Rightarrow>
                 \<lparr>raised = None,
                  sink_after = self\<lparr>last_progress := progress, last_update_ts := now\<rparr>,
                  requests = (if went then [progress] else [])\<rparr>
             | (Some e, went) \<Rightarrow>
                 \<lparr>raised = Some (PushFailed e),
                  sink_after = self,
                  requests = (if went then [progress] else [])\<rparr>))"

text \<open>\<open>on_finalize\<close>: closing needs a session; without one the attribute access fails.\<close>

definition on_finalize :: "sink \<Rightarrow> effect" where
  "on_finalize self =
     (case session self of
        None \<Rightarrow> \<lparr>raised = Some NoSession, sink_after = self, requests = []\<rparr>
      | Some s \<Rightarrow> returned (self\<lparr>session := Some (s\<lparr>session_closed := True\<rparr>)\<rparr>))"

text \<open>
  The lifecycle events and the handler each one reaches. \<open>BenchmarkUpdate\<close> carries
  \<open>scheduler_state.progress.remaining_fraction\<close>, which may be \<open>None\<close>.
\<close>

datatype event =
    Initialize
  | BenchmarkStart
  | BenchmarkUpdate "rat option"
  | BenchmarkComplete
  | Finalize

fun handle :: "network \<Rightarrow> rat \<Rightarrow> sink \<Rightarrow> event \<Rightarrow> effect" where
  "handle net now self Initialize = on_initialize self"
| "handle net now self BenchmarkStart = update_progress net now self 0"
| "handle net now self (BenchmarkUpdate remaining_fraction) =
     update_progress net now self
       (case remaining_fraction of None \<Rightarrow> 0 | Some f \<Rightarrow> double_mul (double_sub 1 f) 100)"
| "handle net now self BenchmarkComplete = update_progress net now self 100"
| "handle net now self Finalize = on_finalize self"

section \<open>Lifecycle event router\<close>

text \<open>
  \<open>ChainedBenchmarkerProgress\<close>. A handler call of an observer is a coroutine; what the
  event loop sees of it is the tick at which it finishes and the exception it raises,
  if any. An observer gives such a task for every event.
\<close>

type_synonym 'e task = "nat \<times> 'e option"

type_synonym 'e observer = "event \<Rightarrow> 'e task"

text \<open>
  The failing task that finishes first; of two that fail at the same tick, the one
  started first.
\<close>

fun earliest_failure :: "'e task list \<Rightarrow> (nat \<times> 'e) option" where
  "earliest_failure [] = None"
| "earliest_failure ((t, None) # tasks) = earliest_failure tasks"
| "earliest_failure ((t, Some e) # tasks) =
     (case earliest_failure tasks of
        None \<Rightarrow> Some (t, e)
      | Some (t', e') \<Rightarrow> if t' < t then Some (t', e') else Some (t, e))"

text \<open>
  \<open>asyncio.gather\<close> as the source calls it, without \<open>return_exceptions\<close>, after the
  documentation of the library: all awaitables are started; when all finish without
  an exception the call returns; the first exception raised is propagated at once to
  the caller, and the other awaitables are not cancelled and keep running. The result
  is the tick at which the caller is resumed and the exception it gets, if any.
\<close>

definition gather :: "'e task list \<Rightarrow> nat \<times> 'e option" where
  "gather tasks =
     (case earliest_failure tasks of
        None \<Rightarrow> (fold max (map fst tasks) 0, None)
      | Some (t, e) \<Rightarrow> (t, Some e))"

text \<open>\<open>_gather\<close>: one handler call per observer, for the same event, passed to \<open>gather\<close>.\<close>

definition chained_gather :: "'e observer list \<Rightarrow> event \<Rightarrow> nat \<times> 'e option" where
  "chained_gather progresses ev = gather (map (\<lambda>p. p ev) progresses)"

text \<open>An observer that finishes at tick \<open>t\<close>, and one that fails with \<open>e\<close> at tick \<open>t\<close>.\<close>

definition steady :: "nat \<Rightarrow> string observer" where
  "steady t ev = (t, None)"

definition failing :: "nat \<Rightarrow> string \<Rightarrow> string observer" where
  "failing t e ev = (t, Some e)"

section \<open>Sample networks and sinks\<close>

text \<open>A network that answers every request with 200, one that answers 500, one that is down.\<close>

definition net_ok :: network where
  "net_ok url progress = Status 200"

definition net_500 :: network where
  "net_500 url progress = Status 500"

definition net_down :: network where
  "net_down url progress = Failure ''connection refused''"

text \<open>An open sink whose last successful push was value \<open>v\<close> at time \<open>t\<close>.\<close>

definition open_sink :: "rat \<Rightarrow> rat \<Rightarrow> sink" where
  "open_sink t v =
     \<lparr>progress_url = ''http://server/progress'', progress_auth = None,
      session = Some \<lparr>headers = [], session_closed = False\<rparr>,
      last_update_ts = t, last_progress = v\<rparr>"

section \<open>Properties of the token arrival extractor\<close>

lemma record_id_texts: "streaming_texts (record_id data self) = streaming_texts self"
  by (simp add: record_id_def split: option.splits)

lemma store_usage_texts: "streaming_texts (store_usage u self) = streaming_texts self"
  by (simp add: store_usage_def)

lemma store_usage_id: "streaming_response_id (store_usage u self) = streaming_response_id self"
  by (simp add: store_usage_def)

lemma record_id_keeps: "streaming_response_id self \<noteq> PNone \<Longrightarrow> record_id data self = self"
  by (simp add: record_id_def split: option.splits)

lemma record_id_sets:
  "streaming_response_id self = PNone \<Longrightarrow> map_of data ''id'' = Some v \<Longrightarrow>
   streaming_response_id (record_id data self) = v"
  by (simp add: record_id_def)

lemma process_data_id:
  "streaming_response_id (snd (process_data X self data)) =
   streaming_response_id (record_id data self)"
  by (simp add: process_data_def Let_def store_usage_id split: sum.splits prod.splits)

lemma add_line_id_kept:
  "streaming_response_id self \<noteq> PNone \<Longrightarrow>
   streaming_response_id (snd (add_streaming_line E X self line)) = streaming_response_id self"
  by (simp add: add_streaming_line_def process_data_id record_id_keeps
      split: sum.splits option.splits)

lemma feed_id_kept:
  "streaming_response_id self \<noteq> PNone \<Longrightarrow>
   streaming_response_id (feed E X self lines) = streaming_response_id self"
proof (induction lines arbitrary: self)
  case Nil
  then show ?case by simp
next
  case (Cons l ls)
  have "streaming_response_id (snd (add_streaming_line E X self l)) = streaming_response_id self"
    using Cons.prems by (rule add_line_id_kept)
  with Cons show ?case by simp
qed

text \<open>
  What \<open>process_data\<close> computes when the first choice is a dictionary with a dictionary
  for its \<open>delta\<close>: no \<open>.get\<close> raises.
\<close>

lemma process_data_readable:
  assumes "X data = Inr (PList (PDict c # cs), usage)"
    and "py_get (PDict c) ''delta'' (PDict []) = Inr (PDict d)"
  shows "process_data X self data =
    (let content = (case map_of d ''content'' of None \<Rightarrow> PNone | Some v \<Rightarrow> v);
         reasoning = (case map_of d ''reasoning_content'' of None \<Rightarrow> PNone | Some v \<Rightarrow> v);
         self1 = record_id data self
     in if content \<noteq> PNone \<or> reasoning \<noteq> PNone
        then (Inr (Some 1), store_usage usage
               (self1\<lparr>streaming_texts :=
                  streaming_texts self1 @ [py_or (py_or content reasoning) (PStr [])]\<rparr>))
        else (Inr (Some 0), store_usage usage (self1\<lparr>streaming_texts := streaming_texts self1\<rparr>)))"
  using assms
  by (simp add: process_data_def first_choice_def detect_token_def Let_def)

lemma process_data_no_choices:
  assumes "X data = Inr (choices, usage)" and "\<not> truthy choices"
  shows "process_data X self data = (Inr (Some 0), store_usage usage (record_id data self))"
  using assms
  by (simp add: process_data_def first_choice_def Let_def)

lemmas sample_defs =
  table_decoder_def get_choices_and_usage_def fresh_handler_def chunk_def

text \<open>
  C1, as the code has it. On a payload with at least one choice, whose first choice is a
  dictionary with a dictionary for its \<open>delta\<close>, \<open>add_streaming_line\<close> returns 1 if and
  only if \<open>content\<close> or \<open>reasoning_content\<close> is in the delta with a value other than
  \<open>None\<close>, and 0 otherwise. The empty string counts: a delta with \<open>content = ""\<close> and no
  \<open>reasoning_content\<close> gives 1 and appends the empty string.
\<close>

theorem token_iff_field_not_null:
  assumes "E line = Inr (Some data)" and "data \<noteq> []"
    and "X data = Inr (PList (PDict c # cs), usage)"
    and "py_get (PDict c) ''delta'' (PDict []) = Inr (PDict d)"
  shows "fst (add_streaming_line E X self line) =
           Inr (Some (if map_of d ''content'' \<notin> {None, Some PNone}
                         \<or> map_of d ''reasoning_content'' \<notin> {None, Some PNone}
                      then 1 else 0))
         \<and> (map_of d ''content'' = Some (PStr []) \<and> map_of d ''reasoning_content'' = None \<longrightarrow>
              fst (add_streaming_line E X self line) = Inr (Some 1)
              \<and> streaming_texts (snd (add_streaming_line E X self line)) =
                  streaming_texts self @ [PStr []])"
  using assms
  by (auto simp add: add_streaming_line_def process_data_readable Let_def store_usage_texts
      record_id_texts py_or_def split: option.splits)

text \<open>The first chunk of a stream, \<open>{"choices": [{"delta": {"content": ""}}]}\<close>.\<close>

theorem token_iff_field_not_null_witness:
  "fst (add_streaming_line (table_decoder [(''data: first'', chunk [(''content'', PStr [])])])
          get_choices_and_usage fresh_handler ''data: first'') = Inr (Some 1)
   \<and> streaming_texts
        (snd (add_streaming_line (table_decoder [(''data: first'', chunk [(''content'', PStr [])])])
          get_choices_and_usage fresh_handler ''data: first'')) = [PStr []]"
proof -
  let ?E = "table_decoder [(''data: first'', chunk [(''content'', PStr [])])]"
  let ?data = "chunk [(''content'', PStr [])]"
  have h1: "?E ''data: first'' = Inr (Some ?data)"
    by (simp add: sample_defs)
  have h2: "?data \<noteq> []"
    by (simp add: sample_defs)
  have h3: "get_choices_and_usage ?data =
              Inr (PList (PDict [(''delta'', PDict [(''content'', PStr [])])] # []), PDict [])"
    by (simp add: sample_defs)
  have h4: "py_get (PDict [(''delta'', PDict [(''content'', PStr [])])]) ''delta'' (PDict []) =
              Inr (PDict [(''content'', PStr [])])"
    by simp
  show ?thesis
    using token_iff_field_not_null
      [where E = "?E" and X = get_choices_and_usage and line = "''data: first''"
         and self = fresh_handler, OF h1 h2 h3 h4]
    by (simp add: fresh_handler_def)
qed

text \<open>
  C1 as stated fails: in \<open>{"choices": [{"delta": {"content": null}}]}\<close> the key
  \<open>content\<close> is present, and the call returns 0.
\<close>

theorem null_content_is_no_token:
  "map_of [(''content'', PNone)] ''content'' \<noteq> None
   \<and> fst (add_streaming_line (table_decoder [(''data: null'', chunk [(''content'', PNone)])])
            get_choices_and_usage fresh_handler ''data: null'') = Inr (Some 0)"
  by (simp add: add_streaming_line_def process_data_def first_choice_def detect_token_def
      record_id_def store_usage_def sample_defs)

text \<open>
  C5, as the code has it. When a token is detected, the fragment appended to
  \<open>streaming_texts\<close> is the value of \<open>content\<close> if that value is true (for a string: not
  empty), else the value of \<open>reasoning_content\<close> if that is true, else the empty string.
  So \<open>content = "A"\<close> with \<open>reasoning_content = "B"\<close> appends \<open>"A"\<close>.
\<close>

theorem fragment_is_first_true_value:
  assumes "E line = Inr (Some data)" and "data \<noteq> []"
    and "X data = Inr (PList (PDict c # cs), usage)"
    and "py_get (PDict c) ''delta'' (PDict []) = Inr (PDict d)"
    and "content = (case map_of d ''content'' of None \<Rightarrow> PNone | Some v \<Rightarrow> v)"
    and "reasoning = (case map_of d ''reasoning_content'' of None \<Rightarrow> PNone | Some v \<Rightarrow> v)"
    and "content \<noteq> PNone \<or> reasoning \<noteq> PNone"
  shows "streaming_texts (snd (add_streaming_line E X self line)) =
           streaming_texts self @
             [if truthy content then content
              else if truthy reasoning then reasoning else PStr []]"
  using assms
  by (auto simp add: add_streaming_line_def process_data_readable Let_def store_usage_texts
      record_id_texts py_or_def split: option.splits)

theorem fragment_is_first_true_value_witness:
  "streaming_texts
     (snd (add_streaming_line
        (table_decoder
           [(''data: ab'', chunk [(''content'', PStr ''A''), (''reasoning_content'', PStr ''B'')])])
        get_choices_and_usage fresh_handler ''data: ab'')) = [PStr ''A'']"
proof -
  let ?d = "[(''content'', PStr ''A''), (''reasoning_content'', PStr ''B'')]"
  let ?E = "table_decoder [(''data: ab'', chunk ?d)]"
  have h1: "?E ''data: ab'' = Inr (Some (chunk ?d))"
    by (simp add: sample_defs)
  have h2: "chunk ?d \<noteq> []"
    by (simp add: sample_defs)
  have h3: "get_choices_and_usage (chunk ?d) =
              Inr (PList (PDict [(''delta'', PDict ?d)] # []), PDict [])"
    by (simp add: sample_defs)
  have h4: "py_get (PDict [(''delta'', PDict ?d)]) ''delta'' (PDict []) = Inr (PDict ?d)"
    by simp
  have h5: "PStr ''A'' = (case map_of ?d ''content'' of None \<Rightarrow> PNone | Some v \<Rightarrow> v)"
    by simp
  have h6: "PStr ''B'' = (case map_of ?d ''reasoning_content'' of None \<Rightarrow> PNone | Some v \<Rightarrow> v)"
    by simp
  have h7: "PStr ''A'' \<noteq> PNone \<or> PStr ''B'' \<noteq> PNone"
    by simp
  show ?thesis
    using fragment_is_first_true_value
      [where E = "?E" and X = get_choices_and_usage and line = "''data: ab''"
         and self = fresh_handler, OF h1 h2 h3 h4 h5 h6 h7]
    by (simp add: fresh_handler_def)
qed

text \<open>
  C5 as stated fails: with \<open>content = ""\<close> (present and not null) and
  \<open>reasoning_content = "B"\<close> the appended fragment is \<open>"B"\<close>, not the value of \<open>content\<close>.
\<close>

theorem empty_content_yields_reasoning:
  "map_of [(''content'', PStr []), (''reasoning_content'', PStr ''B'')] ''content'' = Some (PStr [])
   \<and> PStr [] \<noteq> PNone
   \<and> streaming_texts
       (snd (add_streaming_line
          (table_decoder
             [(''data: eb'', chunk [(''content'', PStr []), (''reasoning_content'', PStr ''B'')])])
          get_choices_and_usage fresh_handler ''data: eb'')) = [PStr ''B'']"
  by (simp add: add_streaming_line_def process_data_def first_choice_def detect_token_def
      record_id_def store_usage_def py_or_def sample_defs)

text \<open>
  C7. If the handler has no identifier and a payload line carries one (a value of \<open>id\<close>
  other than \<open>None\<close>), then after that line and any lines that follow, the stored
  identifier is that of the line. And an identifier, once stored, is the same after any
  further lines.
\<close>

theorem response_id_first_write_wins:
  assumes "streaming_response_id self = PNone"
    and "E line = Inr (Some data)"
    and "map_of data ''id'' = Some v"
    and "v \<noteq> PNone"
  shows "streaming_response_id (feed E X self (line # later)) = v
         \<and> (\<forall>self' lines. streaming_response_id self' \<noteq> PNone \<longrightarrow>
               streaming_response_id (feed E X self' lines) = streaming_response_id self')"
proof -
  have "data \<noteq> []" using assms(3) by auto
  then have "streaming_response_id (snd (add_streaming_line E X self line)) = v"
    using assms by (simp add: add_streaming_line_def process_data_id record_id_sets)
  then show ?thesis using assms(4) by (simp add: feed_id_kept)
qed

theorem response_id_first_write_wins_witness:
  "streaming_response_id
     (feed (table_decoder [(''data: 1'', [(''id'', PStr ''a'')]), (''data: 2'', [(''id'', PStr ''b'')])])
        get_choices_and_usage fresh_handler [''data: 1'', ''data: 2'', ''data: [DONE]'']) = PStr ''a''"
proof -
  let ?E = "table_decoder [(''data: 1'', [(''id'', PStr ''a'')]), (''data: 2'', [(''id'', PStr ''b'')])]"
  have h1: "streaming_response_id fresh_handler = PNone"
    by (simp add: fresh_handler_def)
  have h2: "?E ''data: 1'' = Inr (Some [(''id'', PStr ''a'')])"
    by (simp add: sample_defs)
  have h3: "map_of [(''id'', PStr ''a'')] ''id'' = Some (PStr ''a'')"
    by simp
  have h4: "PStr ''a'' \<noteq> PNone"
    by simp
  show ?thesis
    using response_id_first_write_wins
      [where E = "?E" and X = get_choices_and_usage and line = "''data: 1''"
         and later = "[''data: 2'', ''data: [DONE]'']", OF h1 h2 h3 h4]
    by blast
qed

text \<open>
  C8. On a payload line whose usage record is true (a dictionary that is not empty) and
  whose choices are read without raising, the call returns 0 or 1 and the stored usage
  is the new record, whether or not a token was detected. With no choices at all the
  call returns 0, and the usage is stored all the same.
\<close>

theorem usage_overwritten:
  assumes "E line = Inr (Some data)" and "data \<noteq> []"
    and "X data = Inr (choices, usage)"
    and "readable_choices choices"
    and "truthy usage"
  shows "fst (add_streaming_line E X self line) \<in> {Inr (Some 0), Inr (Some 1)}
         \<and> streaming_usage (snd (add_streaming_line E X self line)) = usage
         \<and> (choices = PList [] \<longrightarrow> fst (add_streaming_line E X self line) = Inr (Some 0))"
proof (cases "truthy choices")
  case False
  then show ?thesis using assms
    by (simp add: add_streaming_line_def process_data_no_choices store_usage_def)
next
  case True
  then obtain c cs where ch: "choices = PList (c # cs)" and rc: "readable_choice c"
    using assms(4) by (auto simp add: readable_choices_def split: pyval.splits list.splits)
  from rc obtain kvs where c: "c = PDict kvs"
    by (cases c) (auto simp add: readable_choice_def)
  from rc c obtain d where d: "py_get (PDict kvs) ''delta'' (PDict []) = Inr (PDict d)"
    by (auto simp add: readable_choice_def split: sum.splits pyval.splits)
  show ?thesis using assms(1,2,3,5) ch c d
    by (simp add: add_streaming_line_def process_data_readable Let_def store_usage_def)
qed

text \<open>The last chunk of a stream, \<open>{"choices": [], "usage": {"total_tokens": 7}}\<close>.\<close>

theorem usage_overwritten_witness:
  "fst (add_streaming_line
          (table_decoder [(''data: u'', [(''choices'', PList []),
                                         (''usage'', PDict [(''total_tokens'', PNum 7)])])])
          get_choices_and_usage fresh_handler ''data: u'') = Inr (Some 0)
   \<and> streaming_usage
       (snd (add_streaming_line
          (table_decoder [(''data: u'', [(''choices'', PList []),
                                         (''usage'', PDict [(''total_tokens'', PNum 7)])])])
          get_choices_and_usage fresh_handler ''data: u'')) = PDict [(''total_tokens'', PNum 7)]"
proof -
  let ?data = "[(''choices'', PList []), (''usage'', PDict [(''total_tokens'', PNum 7)])]"
  let ?E = "table_decoder [(''data: u'', ?data)]"
  have h1: "?E ''data: u'' = Inr (Some ?data)"
    by (simp add: sample_defs)
  have h2: "?data \<noteq> []"
    by simp
  have h3: "get_choices_and_usage ?data = Inr (PList [], PDict [(''total_tokens'', PNum 7)])"
    by (simp add: sample_defs)
  have h4: "readable_choices (PList [])"
    by (simp add: readable_choices_def)
  have h5: "truthy (PDict [(''total_tokens'', PNum 7)])"
    by simp
  show ?thesis
    using usage_overwritten
      [where E = "?E" and X = get_choices_and_usage and line = "''data: u''"
         and self = fresh_handler, OF h1 h2 h3 h4 h5]
    by simp
qed

section \<open>Properties of double rounding\<close>

lemma floor_le_round_half_even: "\<lfloor>y\<rfloor> \<le> round_half_even y"
  by (simp add: round_half_even_def Let_def)

lemma pow2_pos: "0 < pow2 k"
  by (simp add: pow2_def)

lemma pow2_shift:
  assumes "0 \<le> e"
  shows "pow2 (e - 52) * 2 ^ 52 = 2 ^ nat e"
proof (cases "52 \<le> e")
  case True
  then have "nat e = nat (e - 52) + 52" by simp
  then have "(2::rat) ^ nat e = 2 ^ nat (e - 52) * 2 ^ 52" by (simp only: power_add)
  with True show ?thesis by (simp add: pow2_def)
next
  case False
  then have "52 = nat e + nat (52 - e)" using assms by simp
  then have eq: "(2::rat) ^ 52 = 2 ^ nat e * 2 ^ nat (52 - e)" by (simp only: power_add)
  have p: "pow2 (e - 52) = 1 / 2 ^ nat (52 - e)" using False by (simp add: pow2_def)
  have "pow2 (e - 52) * 2 ^ 52 = (1 / 2 ^ nat (52 - e)) * (2 ^ nat e * 2 ^ nat (52 - e))"
    by (simp only: p eq)
  also have "\<dots> = 2 ^ nat e" by simp
  finally show ?thesis .
qed

text \<open>Rounding does not go below a power of two that the exact value reaches.\<close>

lemma round_positive_ge_power:
  assumes "2 ^ k \<le> x"
  shows "2 ^ k \<le> round_positive x"
proof -
  define n where "n = \<lfloor>x\<rfloor>"
  have "(1::rat) \<le> 2 ^ k" by simp
  with assms have x1: "1 \<le> x" by linarith
  then have n: "0 < n" by (simp add: n_def)
  have "of_int ((2::int) ^ k) \<le> x" using assms by simp
  then have kn: "2 ^ k \<le> n" unfolding n_def by (simp only: le_floor_iff)
  define e where "e = bitlen n - 1"
  have ex: "exponent x = e" using x1 by (simp add: exponent_def e_def n_def)
  have "int k + 1 \<le> bitlen n"
    using kn by (simp add: bitlen_ge_iff_power nat_add_distrib)
  then have ke: "int k \<le> e" by (simp add: e_def)
  then have e0: "0 \<le> e" by linarith
  have bl: "2 ^ nat (bitlen n - 1) \<le> n" using bitlen_bounds [OF n] by simp
  have "(of_int (2 ^ nat e) :: rat) \<le> of_int n"
    using bl unfolding e_def by (simp only: of_int_le_iff)
  then have "(2::rat) ^ nat e \<le> of_int n" by simp
  also have "\<dots> \<le> x" by (simp add: n_def)
  finally have lo: "2 ^ nat e \<le> x" .
  define u where "u = pow2 (e - 52)"
  have u: "0 < u" by (simp add: u_def pow2_pos)
  have shift: "u * 2 ^ 52 = 2 ^ nat e"
    unfolding u_def using e0 by (rule pow2_shift)
  have ulp: "ulp x = u" using e0 by (simp add: ulp_def ex u_def max_def)
  have "u * 2 ^ 52 \<le> x" using lo shift by simp
  then have "2 ^ 52 \<le> x / u" using u by (simp add: pos_le_divide_eq mult.commute)
  then have "(2::int) ^ 52 \<le> \<lfloor>x / u\<rfloor>" by (simp add: le_floor_iff)
  then have m: "(2::int) ^ 52 \<le> round_half_even (x / u)"
    using floor_le_round_half_even [of "x / u"] by linarith
  have "k \<le> nat e" using ke by linarith
  then have "(2::rat) ^ k \<le> 2 ^ nat e" by (simp add: power_increasing)
  also have "\<dots> = 2 ^ 52 * u" using shift by (simp add: mult.commute)
  also have "\<dots> \<le> of_int (round_half_even (x / u)) * u"
  proof (rule mult_right_mono)
    have "(of_int ((2::int) ^ 52) :: rat) \<le> of_int (round_half_even (x / u))"
      using m by (simp only: of_int_le_iff)
    then show "(2::rat) ^ 52 \<le> of_int (round_half_even (x / u))" by simp
    show "0 \<le> u" using u by simp
  qed
  finally show ?thesis by (simp add: round_positive_def ulp)
qed

lemma double_sub_ge_one: "1 \<le> x - y \<Longrightarrow> 1 \<le> double_sub x y"
  using round_positive_ge_power [of 0 "x - y"] by (simp add: double_sub_def double_round_def)

lemma double_sub_ge_two: "2 \<le> x - y \<Longrightarrow> 2 \<le> double_sub x y"
  using round_positive_ge_power [of 1 "x - y"] by (simp add: double_sub_def double_round_def)

text \<open>Differences of the examples below, and a product, as doubles.\<close>

lemma double_sub_samples:
  "double_sub (1 / 2) 0 = 1 / 2"
  "double_sub 11 10 = 1"
  "double_sub 13 10 = 3"
  "double_sub 7 10 = - 3"
  "double_sub (21 / 2) 10 = 1 / 2"
  "double_sub (11 / 10) 0 = 2476979795053773 / 2251799813685248"
  "double_sub (1 - 1 / 2 ^ 53) (- 1) = 2"
  "double_mul (double_sub 1 (1 / 2 ^ 54)) 100 = 100"
  by code_simp+

section \<open>Properties of the remote progress sink\<close>

lemmas push_defs =
  update_progress_def patch_def returned_def should_update_def raise_for_status_def

lemma open_sink_sel:
  "session (open_sink t v) = Some \<lparr>headers = [], session_closed = False\<rparr>"
  "last_update_ts (open_sink t v) = t"
  "last_progress (open_sink t v) = v"
  "progress_url (open_sink t v) = ''http://server/progress''"
  by (simp_all add: open_sink_def)

text \<open>
  C3, as the code has it. On an open session a push is sent if and only if the time
  since the last successful push is at least 1 second, or the new value is at least 2
  points above the last sent value, or the new value is at least 100; the two
  differences are the ones the code computes, in double precision. So a push is sent
  whenever the exact time passed is at least 1 or the exact excess is at least 2. A
  push that is not sent is dropped silently: nothing is raised and the sink is
  unchanged.
\<close>

theorem push_sent_iff_throttle:
  assumes "session self = Some s" and "\<not> session_closed s"
  shows "(requests (update_progress net now self progress) = [progress]) =
           (double_sub now (last_update_ts self) \<ge> 1
            \<or> double_sub progress (last_progress self) \<ge> 2
            \<or> progress \<ge> 100)
         \<and> (now - last_update_ts self \<ge> 1
              \<or> progress - last_progress self \<ge> 2
              \<or> progress \<ge> 100 \<longrightarrow>
              requests (update_progress net now self progress) = [progress])
         \<and> (requests (update_progress net now self progress) \<noteq> [progress] \<longrightarrow>
              update_progress net now self progress =
                \<lparr>raised = None, sink_after = self, requests = []\<rparr>)"
proof -
  have iff: "(requests (update_progress net now self progress) = [progress]) =
               should_update now self progress"
    using assms
    by (auto simp add: update_progress_def patch_def returned_def raise_for_status_def
        split: reply.splits)
  have exact: "now - last_update_ts self \<ge> 1 \<or> progress - last_progress self \<ge> 2
                 \<or> progress \<ge> 100 \<Longrightarrow> should_update now self progress"
    using double_sub_ge_one [of now "last_update_ts self"]
      double_sub_ge_two [of progress "last_progress self"]
    by (auto simp add: should_update_def)
  have dropped: "\<not> should_update now self progress \<Longrightarrow>
                 update_progress net now self progress =
                   \<lparr>raised = None, sink_after = self, requests = []\<rparr>"
    using assms by (simp add: update_progress_def returned_def)
  show ?thesis
    using iff exact dropped by (auto simp add: should_update_def)
qed

text \<open>
  The examples of the specification: the last push was value 10 at time 0; value 11 at
  time 0.5 is dropped, value 13 at time 0.5 is sent, value 10.5 at time 1.1 is sent.
  And one where rounding decides: after the value \<open>-1\<close>, the value \<open>1 - 2 ^ -53\<close> is less
  than 2 points above, the double difference is 2, and the push is sent.
\<close>

theorem push_sent_iff_throttle_witness:
  "requests (update_progress net_ok (1/2) (open_sink 0 10) 11) = []
   \<and> requests (update_progress net_ok (1/2) (open_sink 0 10) 13) = [13]
   \<and> requests (update_progress net_ok (11/10) (open_sink 0 10) (21/2)) = [21/2]
   \<and> requests (update_progress net_ok (1/2) (open_sink 0 (- 1)) (1 - 1 / 2 ^ 53)) =
       [1 - 1 / 2 ^ 53]"
proof -
  have h1: "session (open_sink 0 10) = Some \<lparr>headers = [], session_closed = False\<rparr>"
    by (simp add: open_sink_sel)
  have h1': "session (open_sink 0 (- 1)) = Some \<lparr>headers = [], session_closed = False\<rparr>"
    by (simp add: open_sink_sel)
  have h2: "\<not> session_closed \<lparr>headers = [], session_closed = False\<rparr>"
    by simp
  have a: "requests (update_progress net_ok (1/2) (open_sink 0 10) 11) = []"
    using push_sent_iff_throttle [OF h1 h2, of net_ok "1/2" 11]
    by (auto simp add: open_sink_sel double_sub_samples)
  have b: "requests (update_progress net_ok (1/2) (open_sink 0 10) 13) = [13]"
    using push_sent_iff_throttle [OF h1 h2, of net_ok "1/2" 13]
    by (simp add: open_sink_sel double_sub_samples)
  have c: "requests (update_progress net_ok (11/10) (open_sink 0 10) (21/2)) = [21/2]"
    using push_sent_iff_throttle [OF h1 h2, of net_ok "11/10" "21/2"]
    by (simp add: open_sink_sel double_sub_samples)
  have d: "requests (update_progress net_ok (1/2) (open_sink 0 (- 1)) (1 - 1 / 2 ^ 53)) =
             [1 - 1 / 2 ^ 53]"
    using push_sent_iff_throttle [OF h1' h2, of net_ok "1/2" "1 - 1 / 2 ^ 53"]
    by (simp only: open_sink_sel double_sub_samples) simp
  from a b c d show ?thesis by simp
qed

text \<open>
  C3 as stated fails for a value below the last sent one: with the last push of value 10
  at time 0, value 7 at time 0.5 differs from 10 by 3 points, and it is dropped.
\<close>

theorem lower_progress_is_dropped:
  "\<bar>7 - last_progress (open_sink 0 10)\<bar> \<ge> 2
   \<and> requests (update_progress net_ok (1/2) (open_sink 0 10) 7) = []"
  by (simp add: push_defs open_sink_def double_sub_samples)

text \<open>
  C4. A push attempted on an open session sends exactly one request. If the answer has
  a success status, both the last sent value and the last sent time are updated and
  nothing is raised. If the answer has a status of 400 or more, or the transport
  fails, the sink is left as it was and the failure is raised from the handler.
\<close>

theorem push_outcome:
  assumes "session self = Some s" and "\<not> session_closed s"
    and "should_update now self progress"
  shows "requests (update_progress net now self progress) = [progress]
         \<and> (case net (progress_url self) progress of
               Status code \<Rightarrow>
                 if code < 400
                 then raised (update_progress net now self progress) = None
                      \<and> sink_after (update_progress net now self progress) =
                          self\<lparr>last_progress := progress, last_update_ts := now\<rparr>
                 else raised (update_progress net now self progress) =
                          Some (PushFailed (ClientResponseError code))
                      \<and> sink_after (update_progress net now self progress) = self
             | Failure msg \<Rightarrow>
                 raised (update_progress net now self progress) =
                     Some (PushFailed (ClientError msg))
                 \<and> sink_after (update_progress net now self progress) = self)"
  using assms
  by (cases "net (progress_url self) progress")
    (simp_all add: update_progress_def patch_def raise_for_status_def)

theorem push_outcome_witness:
  "sink_after (update_progress net_ok 5 (open_sink 0 10) 50) =
       (open_sink 0 10)\<lparr>last_progress := 50, last_update_ts := 5\<rparr>
   \<and> raised (update_progress net_500 5 (open_sink 0 10) 50) =
       Some (PushFailed (ClientResponseError 500))
   \<and> sink_after (update_progress net_500 5 (open_sink 0 10) 50) = open_sink 0 10
   \<and> raised (update_progress net_down 5 (open_sink 0 10) 50) =
       Some (PushFailed (ClientError ''connection refused''))
   \<and> sink_after (update_progress net_down 5 (open_sink 0 10) 50) = open_sink 0 10"
proof -
  have h1: "session (open_sink 0 10) = Some \<lparr>headers = [], session_closed = False\<rparr>"
    by (simp add: open_sink_sel)
  have h2: "\<not> session_closed \<lparr>headers = [], session_closed = False\<rparr>"
    by simp
  have h3: "should_update 5 (open_sink 0 10) 50"
    using double_sub_ge_one [of 5 0] by (simp add: should_update_def open_sink_sel)
  have a: "sink_after (update_progress net_ok 5 (open_sink 0 10) 50) =
             (open_sink 0 10)\<lparr>last_progress := 50, last_update_ts := 5\<rparr>"
    using push_outcome [OF h1 h2 h3, of net_ok]
    by (simp add: net_ok_def)
  have b: "raised (update_progress net_500 5 (open_sink 0 10) 50) =
             Some (PushFailed (ClientResponseError 500))
           \<and> sink_after (update_progress net_500 5 (open_sink 0 10) 50) = open_sink 0 10"
    using push_outcome [OF h1 h2 h3, of net_500]
    by (simp add: net_500_def)
  have c: "raised (update_progress net_down 5 (open_sink 0 10) 50) =
             Some (PushFailed (ClientError ''connection refused''))
           \<and> sink_after (update_progress net_down 5 (open_sink 0 10) 50) = open_sink 0 10"
    using push_outcome [OF h1 h2 h3, of net_down]
    by (simp add: net_down_def)
  from a b c show ?thesis by simp
qed

text \<open>
  C6. On an open session, \<open>BenchmarkComplete\<close> sends exactly one request, with value
  100, whatever the time and whatever the last sent time and value.
\<close>

theorem completion_always_pushed:
  assumes "session self = Some s" and "\<not> session_closed s"
  shows "requests (handle net now self BenchmarkComplete) = [100]"
  using assms
  by (auto simp add: push_defs split: reply.splits)

text \<open>Value 100 was sent at time 3; the completion at the same time is sent again.\<close>

theorem completion_always_pushed_witness:
  "requests (handle net_ok 3 (open_sink 3 100) BenchmarkComplete) = [100]"
proof -
  have h1: "session (open_sink 3 100) = Some \<lparr>headers = [], session_closed = False\<rparr>"
    by (simp add: open_sink_sel)
  have h2: "\<not> session_closed \<lparr>headers = [], session_closed = False\<rparr>"
    by simp
  show ?thesis
    using completion_always_pushed [OF h1 h2, of net_ok 3]
    by simp
qed

text \<open>
  C9. A sink is constructed with last sent value \<open>-1\<close>, below every valid progress, and
  last sent time 0. After \<open>on_initialize\<close>, the first push of any value from 0 to 100 is
  sent, the clock reading the seconds since 1970 (at least 1).
\<close>

theorem first_push_qualifies:
  assumes "1 \<le> now" and "0 \<le> progress" and "progress \<le> 100"
  shows "last_progress (init url auth) = - 1
         \<and> last_progress (init url auth) < progress
         \<and> last_update_ts (init url auth) = 0
         \<and> requests (update_progress net now (sink_after (on_initialize (init url auth))) progress)
             = [progress]"
proof -
  have "1 \<le> double_sub now 0"
    using assms(1) by (simp add: double_sub_ge_one)
  then show ?thesis
    using assms
    by (auto simp add: push_defs init_def on_initialize_def split: reply.splits option.splits)
qed

theorem first_push_qualifies_witness:
  "requests (update_progress net_ok 1700000000
      (sink_after (on_initialize (init ''http://server/progress'' (Some ''token'')))) 0) = [0]"
proof -
  have h1: "(1::rat) \<le> 1700000000" by simp
  have h2: "(0::rat) \<le> 0" by simp
  have h3: "(0::rat) \<le> 100" by simp
  show ?thesis
    using first_push_qualifies [OF h1 h2 h3, of "''http://server/progress''" "Some ''token''" net_ok]
    by simp
qed

text \<open>
  C10. While the sink has no session, \<open>BenchmarkStart\<close>, \<open>BenchmarkUpdate\<close> and
  \<open>BenchmarkComplete\<close> return without a request and without an exception, and leave the
  sink as it was.
\<close>

theorem unopened_push_is_noop:
  assumes "session self = None"
    and "ev = BenchmarkStart \<or> ev = BenchmarkUpdate remaining_fraction \<or> ev = BenchmarkComplete"
  shows "handle net now self ev = \<lparr>raised = None, sink_after = self, requests = []\<rparr>"
  using assms
  by (auto simp add: update_progress_def returned_def)

theorem unopened_push_is_noop_witness:
  "handle net_ok 1700000000 (init ''http://server/progress'' None) BenchmarkComplete =
     \<lparr>raised = None, sink_after = init ''http://server/progress'' None, requests = []\<rparr>"
proof -
  have h1: "session (init ''http://server/progress'' None) = None"
    by (simp add: init_def)
  have h2: "BenchmarkComplete = BenchmarkStart \<or> BenchmarkComplete = BenchmarkUpdate None
            \<or> BenchmarkComplete = BenchmarkComplete"
    by simp
  show ?thesis
    using unopened_push_is_noop [OF h1 h2, of net_ok 1700000000]
    by simp
qed

section \<open>Properties of the lifecycle event router\<close>

lemma earliest_failure_none:
  "earliest_failure tasks = None \<longleftrightarrow> (\<forall>task\<in>set tasks. snd task = None)"
  by (induction tasks rule: earliest_failure.induct) (auto split: option.splits)

lemma earliest_failure_some:
  "earliest_failure tasks = Some (t, e) \<Longrightarrow>
   (t, Some e) \<in> set tasks \<and> (\<forall>task\<in>set tasks. snd task \<noteq> None \<longrightarrow> t \<le> fst task)"
proof (induction tasks arbitrary: t e rule: earliest_failure.induct)
  case 1
  then show ?case by simp
next
  case (2 t0 tasks)
  then show ?case by simp
next
  case (3 t0 e0 tasks)
  show ?case
  proof (cases "earliest_failure tasks")
    case None
    with "3.prems" have "t = t0" "e = e0" by simp_all
    moreover have "\<forall>task\<in>set tasks. snd task = None"
      using None by (simp add: earliest_failure_none)
    ultimately show ?thesis by auto
  next
    case (Some r)
    obtain t' e' where r: "r = (t', e')" by (cases r)
    have ih: "(t', Some e') \<in> set tasks
              \<and> (\<forall>task\<in>set tasks. snd task \<noteq> None \<longrightarrow> t' \<le> fst task)"
      using "3.IH" Some r by simp
    show ?thesis
    proof (cases "t' < t0")
      case True
      with "3.prems" Some r have "t = t'" "e = e'" by simp_all
      with ih True show ?thesis by auto
    next
      case False
      with "3.prems" Some r have "t = t0" "e = e0" by simp_all
      with ih False show ?thesis by fastforce
    qed
  qed
qed

lemma fold_max_upper: "(a::nat) \<le> fold max xs a \<and> (\<forall>x\<in>set xs. x \<le> fold max xs a)"
proof (induction xs arbitrary: a)
  case Nil
  then show ?case by simp
next
  case (Cons y ys)
  have "max y a \<le> fold max ys (max y a)" using Cons.IH by blast
  moreover have "\<forall>x\<in>set ys. x \<le> fold max ys (max y a)" using Cons.IH by blast
  ultimately show ?case by auto
qed

text \<open>
  C2, as the code has it. Dispatch starts one task per observer for the event. When no
  task fails, it returns after all of them have finished. When one or more fail, it
  raises the failure of the task that fails first, at the tick that task fails: it
  does not wait for the tasks that finish later, and no task is cancelled.
\<close>

theorem dispatch_raises_first_failure:
  "length (map (\<lambda>p. p ev) progresses) = length progresses
   \<and> (case chained_gather progresses ev of
         (t, None) \<Rightarrow> \<forall>p\<in>set progresses. snd (p ev) = None \<and> fst (p ev) \<le> t
       | (t, Some e) \<Rightarrow>
           (\<exists>p\<in>set progresses. p ev = (t, Some e))
           \<and> (\<forall>p\<in>set progresses. snd (p ev) \<noteq> None \<longrightarrow> t \<le> fst (p ev)))"
proof (cases "earliest_failure (map (\<lambda>p. p ev) progresses)")
  case None
  then have ok: "\<forall>p\<in>set progresses. snd (p ev) = None"
    by (simp add: earliest_failure_none)
  have "\<forall>x\<in>set (map fst (map (\<lambda>p. p ev) progresses)).
          x \<le> fold max (map fst (map (\<lambda>p. p ev) progresses)) 0"
    using fold_max_upper by blast
  then have "\<forall>p\<in>set progresses. fst (p ev) \<le> fold max (map fst (map (\<lambda>p. p ev) progresses)) 0"
    by simp
  with None ok show ?thesis by (simp add: chained_gather_def gather_def)
next
  case (Some r)
  obtain t e where r: "r = (t, e)" by (cases r)
  have "(t, Some e) \<in> set (map (\<lambda>p. p ev) progresses)
        \<and> (\<forall>task\<in>set (map (\<lambda>p. p ev) progresses). snd task \<noteq> None \<longrightarrow> t \<le> fst task)"
    using Some r earliest_failure_some [of "map (\<lambda>p. p ev) progresses" t e] by blast
  then have "(\<exists>p\<in>set progresses. p ev = (t, Some e))
             \<and> (\<forall>p\<in>set progresses. snd (p ev) \<noteq> None \<longrightarrow> t \<le> fst (p ev))"
    by auto
  with Some r show ?thesis by (simp add: chained_gather_def gather_def)
qed

text \<open>
  Three observers, the second fails at tick 3 and the others finish at ticks 1 and 2:
  both have finished when the failure of the second is raised.
\<close>

theorem dispatch_raises_first_failure_witness:
  "chained_gather [steady 1, failing 3 ''boom'', steady 2] BenchmarkStart = (3, Some ''boom'')
   \<and> fst (steady 1 BenchmarkStart) \<le> 3 \<and> fst (steady 2 BenchmarkStart) \<le> 3"
proof -
  have "chained_gather [steady 1, failing 3 ''boom'', steady 2] BenchmarkStart =
          (3, Some ''boom'')"
    by (simp add: chained_gather_def gather_def steady_def failing_def)
  then show ?thesis
    using dispatch_raises_first_failure
      [of BenchmarkStart "[steady 1, failing 3 ''boom'', steady 2]"]
    by (simp add: steady_def failing_def)
qed

text \<open>
  C2 as stated fails: with three observers of which the second fails at tick 1 and the
  others finish at tick 5, the failure reaches the caller at tick 1, before the first
  and the third observer have finished.
\<close>

theorem dispatch_does_not_wait:
  "chained_gather [steady 5, failing 1 ''boom'', steady 5] BenchmarkStart = (1, Some ''boom'')
   \<and> fst (chained_gather [steady 5, failing 1 ''boom'', steady 5] BenchmarkStart)
       < fst (steady 5 BenchmarkStart)"
  by (simp add: chained_gather_def gather_def steady_def failing_def)

end
